theory Spec2Isabelle
  imports Main
begin

section \<open>The commit tracker: worker.js\<close>

text \<open>
  The worker is one scheduled run: it reads the team configuration and the two persisted
  artifacts, counts the commits of every repository of every team in the trailing
  five-minute window, folds the counts into the leaderboard and the history, writes both
  files and publishes them with git.

  JSON values are modelled at the types the artifacts have. The fields \<open>id\<close>,
  \<open>name\<close>, \<open>repos\<close>, \<open>color\<close> of a team are \<open>team_id\<close>, \<open>team_name\<close>,
  \<open>team_repos\<close>, \<open>team_color\<close>; the fields \<open>id\<close>, \<open>name\<close>,
  \<open>total_commits\<close>, \<open>color\<close> of a leaderboard entry are \<open>lb_id\<close>, \<open>lb_name\<close>,
  \<open>total_commits\<close>, \<open>lb_color\<close>; the fields \<open>time\<close>, \<open>timestamp\<close>,
  \<open>teams\<close>, \<open>total\<close> of a history entry are \<open>h_time\<close>, \<open>h_timestamp\<close>,
  \<open>h_teams\<close>, \<open>h_total\<close>. Numbers are integers (the counts are array lengths and
  their sums). The object \<open>teams\<close> is the map of its own properties, from team
  identifier to count; an assignment to it is \<open>object_set\<close>.
\<close>

subsection \<open>Data\<close>

record team =
  team_id :: string
  team_name :: string
  team_repos :: "string list"
  team_color :: string

record leaderboard_entry =
  lb_id :: string
  lb_name :: string
  total_commits :: int
  lb_color :: string

record history_entry =
  h_time :: string
  h_timestamp :: int
  h_teams :: "string \<rightharpoonup> int"
  h_total :: int

text \<open>
  The error object thrown by the commit-listing call: its \<open>status\<close> (absent for a
  network failure) and its \<open>message\<close>.
\<close>

datatype api_error = ApiError "int option" string

datatype file_name = LEADERBOARD_FILE | HISTORY_FILE

text \<open>
  Everything one run takes from outside: the clock (\<open>now.getTime()\<close>, in
  milliseconds), the two date formatters, the commit-listing call of the hosting API
  (\<open>Inl\<close> when it throws, \<open>Inr\<close> the array \<open>response.data\<close>; within one run it
  is a function of its arguments), the parsed content of \<open>data/teams.json\<close>
  (\<open>None\<close> when the file is missing or does not parse), whether
  \<open>fs.writeFileSync\<close> throws on a file, and the error of the child process that runs
  the git commands (\<open>None\<close> when all of them succeed).
  A repository path with no slash leaves \<open>rName\<close> undefined, hence the options.
\<close>

record 'c env =
  now :: int
  toISOString :: "int \<Rightarrow> string"
  toLocaleTimeString :: "int \<Rightarrow> string"
  listCommits :: "string option \<Rightarrow> string option \<Rightarrow> string \<Rightarrow> string \<Rightarrow> api_error + 'c list"
  teams_json :: "team list option"
  writeFileSync_throws :: "file_name \<Rightarrow> bool"
  exec_err :: "string option"

text \<open>
  The two persisted artifacts, as \<open>readJson\<close> sees them: \<open>None\<close> is a file that
  is missing or whose content does not parse.
\<close>

record files =
  leaderboard_json :: "leaderboard_entry list option"
  history_json :: "history_entry list option"

datatype run_error = WriteFailed file_name | FailedToCommit string

subsection \<open>Library functions of the language\<close>

text \<open>\<open>s.split(c)\<close>: the pieces of \<open>s\<close> between the occurrences of \<open>c\<close>.\<close>

fun split_on :: "char \<Rightarrow> string \<Rightarrow> string list" where
  "split_on c [] = [[]]"
| "split_on c (x # xs) =
     (if x = c then [] # split_on c xs
      else (case split_on c xs of
              [] \<Rightarrow> [[x]]
            | w # ws \<Rightarrow> (x # w) # ws))"

text \<open>The destructuring \<open>const [a, b] = xs\<close>: a missing element is undefined.\<close>

fun destructure2 :: "'a list \<Rightarrow> 'a option \<times> 'a option" where
  "destructure2 [] = (None, None)"
| "destructure2 [a] = (Some a, None)"
| "destructure2 (a # b # rest) = (Some a, Some b)"

text \<open>
  A \<open>Map\<close> keeps its keys in insertion order: \<open>set\<close> on a key it holds replaces the
  value where the key stands, on a new key it appends. \<open>new Map(pairs)\<close> sets the
  pairs in turn; \<open>values()\<close> lists the values in key order.
\<close>

fun map_set :: "'k \<Rightarrow> 'v \<Rightarrow> ('k \<times> 'v) list \<Rightarrow> ('k \<times> 'v) list" where
  "map_set k v [] = [(k, v)]"
| "map_set k v ((k', v') # m) =
     (if k' = k then (k, v) # m else (k', v') # map_set k v m)"

definition map_get :: "('k \<times> 'v) list \<Rightarrow> 'k \<Rightarrow> 'v option" where
  "map_get m k = map_of m k"

definition new_Map :: "('k \<times> 'v) list \<Rightarrow> ('k \<times> 'v) list" where
  "new_Map kvs = foldl (\<lambda>m kv. map_set (fst kv) (snd kv) m) [] kvs"

definition map_values :: "('k \<times> 'v) list \<Rightarrow> 'v list" where
  "map_values m = map snd m"

text \<open>
  \<open>xs.sort(cmp)\<close> is stable: \<open>a\<close> goes before \<open>b\<close> when \<open>cmp(a, b) < 0\<close>, and
  elements that compare equal keep their order.
\<close>

fun insort_cmp :: "('a \<Rightarrow> 'a \<Rightarrow> int) \<Rightarrow> 'a \<Rightarrow> 'a list \<Rightarrow> 'a list" where
  "insort_cmp cmp x [] = [x]"
| "insort_cmp cmp x (y # ys) =
     (if cmp x y \<le> 0 then x # y # ys else y # insort_cmp cmp x ys)"

definition array_sort :: "('a \<Rightarrow> 'a \<Rightarrow> int) \<Rightarrow> 'a list \<Rightarrow> 'a list" where
  "array_sort cmp xs = foldr (insort_cmp cmp) xs []"

text \<open>\<open>xs.slice(-n)\<close>: the last \<open>n\<close> elements, all of them when there are fewer.\<close>

definition slice_last :: "nat \<Rightarrow> 'a list \<Rightarrow> 'a list" where
  "slice_last n xs = drop (length xs - n) xs"

text \<open>
  \<open>obj[key] = v\<close> on an object made by an object literal, for a value \<open>v\<close> that
  is a number or a string. The key \<open>__proto__\<close> reaches the setter the object
  inherits from \<open>Object.prototype\<close>, which ignores a value that is not an object:
  no property is stored. Every other key names a property of the object itself (the other
  inherited properties are writable data properties), which is created or overwritten.
\<close>

definition object_set :: "(string \<rightharpoonup> 'v) \<Rightarrow> string \<Rightarrow> 'v \<Rightarrow> (string \<rightharpoonup> 'v)" where
  "object_set obj key v = (if key = ''__proto__'' then obj else obj(key \<mapsto> v))"

subsection \<open>readJson and getCommitsInWindow\<close>

definition readJson :: "'a option \<Rightarrow> 'a \<Rightarrow> 'a" where
  "readJson content defaultValue =
     (case content of Some parsed \<Rightarrow> parsed | None \<Rightarrow> defaultValue)"

definition getCommitsInWindow ::
  "'c env \<Rightarrow> string option \<Rightarrow> string option \<Rightarrow> string \<Rightarrow> string \<Rightarrow> int" where
  "getCommitsInWindow e repoOwner repoName sinceTime untilTime =
     (case listCommits e repoOwner repoName sinceTime untilTime of
        Inr data \<Rightarrow> int (length data)
      | Inl error \<Rightarrow> 0)"

subsection \<open>runTracker\<close>

definition sinceTime :: "'c env \<Rightarrow> string" where
  "sinceTime e = toISOString e (now e - 5 * 60000)"

definition untilTime :: "'c env \<Rightarrow> string" where
  "untilTime e = toISOString e (now e)"

text \<open>The inner loop: the commits of all repositories of one team.\<close>

definition repoCount :: "'c env \<Rightarrow> string \<Rightarrow> int" where
  "repoCount e repoPath =
     (case destructure2 (split_on CHR ''/'' repoPath) of
        (rOwner, rName) \<Rightarrow> getCommitsInWindow e rOwner rName (sinceTime e) (untilTime e))"

definition teamWindowCommits :: "'c env \<Rightarrow> team \<Rightarrow> int" where
  "teamWindowCommits e t =
     foldl (\<lambda>acc repoPath. acc + repoCount e repoPath) 0 (team_repos t)"

text \<open>
  The body of the outer loop, on the pair of the leaderboard map and the new history
  entry: look the team's entry up or create it with total 0, add the window count, store
  it, and record the count in the history entry.
\<close>

definition processTeam ::
  "'c env \<Rightarrow> (string \<times> leaderboard_entry) list \<times> history_entry \<Rightarrow> team
     \<Rightarrow> (string \<times> leaderboard_entry) list \<times> history_entry" where
  "processTeam e st t =
     (let leaderboardMap = fst st;
          newHistoryEntry = snd st;
          c = teamWindowCommits e t;
          leaderboardEntry =
            (case map_get leaderboardMap (team_id t) of
               Some found \<Rightarrow> found
             | None \<Rightarrow> \<lparr>lb_id = team_id t, lb_name = team_name t,
                         total_commits = 0, lb_color = team_color t\<rparr>);
          leaderboardEntry' =
            leaderboardEntry\<lparr>total_commits := total_commits leaderboardEntry + c\<rparr>
      in (map_set (team_id t) leaderboardEntry' leaderboardMap,
          newHistoryEntry\<lparr>h_teams := object_set (h_teams newHistoryEntry) (team_id t) c,
                           h_total := h_total newHistoryEntry + c\<rparr>))"

definition teamsConfig :: "'c env \<Rightarrow> team list" where
  "teamsConfig e = readJson (teams_json e) []"

definition currentLeaderboard :: "files \<Rightarrow> leaderboard_entry list" where
  "currentLeaderboard fs = readJson (leaderboard_json fs) []"

definition history :: "files \<Rightarrow> history_entry list" where
  "history fs = readJson (history_json fs) []"

definition initialHistoryEntry :: "'c env \<Rightarrow> history_entry" where
  "initialHistoryEntry e =
     \<lparr>h_time = toLocaleTimeString e (now e), h_timestamp = now e,
      h_teams = Map.empty, h_total = 0\<rparr>"

definition processTeams ::
  "'c env \<Rightarrow> files \<Rightarrow> (string \<times> leaderboard_entry) list \<times> history_entry" where
  "processTeams e fs =
     foldl (processTeam e)
       (new_Map (map (\<lambda>t. (lb_id t, t)) (currentLeaderboard fs)), initialHistoryEntry e)
       (teamsConfig e)"

definition newHistoryEntry :: "'c env \<Rightarrow> files \<Rightarrow> history_entry" where
  "newHistoryEntry e fs = snd (processTeams e fs)"

definition newLeaderboard :: "'c env \<Rightarrow> files \<Rightarrow> leaderboard_entry list" where
  "newLeaderboard e fs =
     array_sort (\<lambda>a b. total_commits b - total_commits a)
       (map_values (fst (processTeams e fs)))"

definition newHistory :: "'c env \<Rightarrow> files \<Rightarrow> history_entry list" where
  "newHistory e fs = slice_last 50 (history fs @ [newHistoryEntry e fs])"

text \<open>
  commitFiles writes the two files, then runs the git commands; the promise it returns
  is rejected when the child process reports an error. A write that throws rejects
  it too. The result is the state of the files with the outcome.
\<close>

definition commitFiles ::
  "'c env \<Rightarrow> files \<Rightarrow> leaderboard_entry list \<Rightarrow> history_entry list
     \<Rightarrow> files \<times> (run_error + unit)" where
  "commitFiles e fs lb h =
     (if writeFileSync_throws e LEADERBOARD_FILE then (fs, Inl (WriteFailed LEADERBOARD_FILE))
      else let fs1 = fs\<lparr>leaderboard_json := Some lb\<rparr> in
        if writeFileSync_throws e HISTORY_FILE then (fs1, Inl (WriteFailed HISTORY_FILE))
        else let fs2 = fs1\<lparr>history_json := Some h\<rparr> in
          (case exec_err e of
             Some message \<Rightarrow> (fs2, Inl (FailedToCommit message))
           | None \<Rightarrow> (fs2, Inr ())))"

definition runTracker :: "'c env \<Rightarrow> files \<Rightarrow> files \<times> (run_error + unit)" where
  "runTracker e fs = commitFiles e fs (newLeaderboard e fs) (newHistory e fs)"

text \<open>
  The process: a rejected run exits with code 1 (\<open>process.exit(1)\<close> in the handler of
  the rejection), a completed one with code 0.
\<close>

definition worker :: "'c env \<Rightarrow> files \<Rightarrow> files \<times> int" where
  "worker e fs =
     (case runTracker e fs of
        (fs', Inl error) \<Rightarrow> (fs', 1)
      | (fs', Inr done) \<Rightarrow> (fs', 0))"

text \<open>Successive runs, each on the files the one before left.\<close>

definition runs :: "'c env list \<Rightarrow> files \<Rightarrow> files" where
  "runs es fs = foldl (\<lambda>fs' e. fst (worker e fs')) fs es"

subsection \<open>Quantities the properties are stated with\<close>

text \<open>
  The window count of an identifier in a team list: the sum of the counts of the teams
  that carry it (one team, when identifiers are unique).
\<close>

definition windowCountOf :: "'c env \<Rightarrow> team list \<Rightarrow> string \<Rightarrow> int" where
  "windowCountOf e ts k =
     sum_list (map (teamWindowCommits e) (filter (\<lambda>t. team_id t = k) ts))"

definition windowCount :: "'c env \<Rightarrow> string \<Rightarrow> int" where
  "windowCount e k = windowCountOf e (teamsConfig e) k"

text \<open>The cumulative total a leaderboard shows for an identifier, 0 when it has no entry.\<close>

definition totalOf :: "leaderboard_entry list \<Rightarrow> string \<Rightarrow> int" where
  "totalOf lb k =
     (case find (\<lambda>x. lb_id x = k) lb of None \<Rightarrow> 0 | Some x \<Rightarrow> total_commits x)"

text \<open>Every value of the leaderboard map stands under its own identifier.\<close>

definition keyed :: "(string \<times> leaderboard_entry) list \<Rightarrow> bool" where
  "keyed m = list_all (\<lambda>p. lb_id (snd p) = fst p) m"

text \<open>The entry that one iteration of the outer loop stores for team \<open>t\<close>.\<close>

definition stepEntry ::
  "'c env \<Rightarrow> (string \<times> leaderboard_entry) list \<Rightarrow> team \<Rightarrow> leaderboard_entry" where
  "stepEntry e m t =
     (case map_of m (team_id t) of
        Some found \<Rightarrow> found\<lparr>total_commits := total_commits found + teamWindowCommits e t\<rparr>
      | None \<Rightarrow> \<lparr>lb_id = team_id t, lb_name = team_name t,
                  total_commits = 0 + teamWindowCommits e t, lb_color = team_color t\<rparr>)"

text \<open>
  Whether the commit-listing call for a repository path throws in this run, and a team
  without the repositories whose call throws.
\<close>

definition repoFails :: "'c env \<Rightarrow> string \<Rightarrow> bool" where
  "repoFails e repoPath =
     (case destructure2 (split_on CHR ''/'' repoPath) of
        (rOwner, rName) \<Rightarrow> isl (listCommits e rOwner rName (sinceTime e) (untilTime e)))"

definition dropFailing :: "'c env \<Rightarrow> team \<Rightarrow> team" where
  "dropFailing e t = t\<lparr>team_repos := filter (\<lambda>r. \<not> repoFails e r) (team_repos t)\<rparr>"

subsection \<open>Concrete runs\<close>

text \<open>
  Two teams with one repository each; the listing of \<open>o/r1\<close> returns three commits,
  every other call fails with status 404.
\<close>

definition scenarioTeams :: "team list" where
  "scenarioTeams =
     [\<lparr>team_id = ''a'', team_name = ''Alpha'', team_repos = [''o/r1''], team_color = ''red''\<rparr>,
      \<lparr>team_id = ''b'', team_name = ''Beta'', team_repos = [''o/r2''], team_color = ''blue''\<rparr>]"

definition scenarioEnv :: "unit env" where
  "scenarioEnv =
     \<lparr>now = 1700000000000,
      toISOString = (\<lambda>t. if t = 1700000000000 then ''2023-11-14T22:13:20.000Z''
                          else ''2023-11-14T22:08:20.000Z''),
      toLocaleTimeString = (\<lambda>t. ''10:13 PM''),
      listCommits = (\<lambda>rOwner rName s u.
         if rOwner = Some ''o'' \<and> rName = Some ''r1'' then Inr [(), (), ()]
         else Inl (ApiError (Some 404) ''Not Found'')),
      teams_json = Some scenarioTeams,
      writeFileSync_throws = (\<lambda>f. False),
      exec_err = None\<rparr>"

definition rejectedEnv :: "unit env" where
  "rejectedEnv = scenarioEnv\<lparr>exec_err := Some ''Command failed: git push''\<rparr>"

text \<open>The same run with one team, whose identifier is \<open>__proto__\<close>.\<close>

definition protoEnv :: "unit env" where
  "protoEnv =
     scenarioEnv\<lparr>teams_json := Some
       [\<lparr>team_id = ''__proto__'', team_name = ''Proto'', team_repos = [''o/r1''],
         team_color = ''red''\<rparr>]\<rparr>"

definition emptyFiles :: files where
  "emptyFiles = \<lparr>leaderboard_json = None, history_json = None\<rparr>"

definition oldFiles :: files where
  "oldFiles =
     \<lparr>leaderboard_json = Some
        [\<lparr>lb_id = ''z'', lb_name = ''Zeta'', total_commits = 7, lb_color = ''green''\<rparr>,
         \<lparr>lb_id = ''a'', lb_name = ''Old'', total_commits = 10, lb_color = ''black''\<rparr>],
      history_json = None\<rparr>"

definition fullHistory :: "history_entry list" where
  "fullHistory =
     map (\<lambda>n. \<lparr>h_time = ''t'', h_timestamp = int n, h_teams = Map.empty, h_total = 0\<rparr>)
       [0..<50]"

definition fullFiles :: files where
  "fullFiles = \<lparr>leaderboard_json = None, history_json = Some fullHistory\<rparr>"

section \<open>The dashboard: the React component App\<close>

text \<open>
  The dashboard module computes the two artifact URLs once, when it is loaded; the
  component \<open>App\<close> calls \<open>fetchData\<close> when it mounts and then every 30 seconds.
\<close>

subsection \<open>Module constants\<close>

definition RAW_URL_BASE :: string where
  "RAW_URL_BASE =
     ''https://raw.githubusercontent.com/MethodistCollege/hacknovate-commit-tracker/main/''"

text \<open>The decimal digits of a number, as a template literal prints \<open>Date.now()\<close>.\<close>

function decimal :: "nat \<Rightarrow> string" where
  "decimal n =
     (if n < 10 then [''0123456789'' ! n]
      else decimal (n div 10) @ [''0123456789'' ! (n mod 10)])"
  by pat_completeness auto
termination
  by (relation "measure (\<lambda>n. n)") auto

declare decimal.simps [simp del]

text \<open>
  The constants \<open>LEADERBOARD_URL\<close> and \<open>HISTORY_URL\<close> of a loaded module;
  \<open>loadModule\<close> takes the two readings of \<open>Date.now()\<close> made while the module is
  evaluated.
\<close>

record module_consts =
  LEADERBOARD_URL :: string
  HISTORY_URL :: string

definition loadModule :: "nat \<Rightarrow> nat \<Rightarrow> module_consts" where
  "loadModule t1 t2 =
     \<lparr>LEADERBOARD_URL = RAW_URL_BASE @ ''data/leaderboard.json?cache='' @ decimal t1,
      HISTORY_URL = RAW_URL_BASE @ ''data/history.json?cache='' @ decimal t2\<rparr>"

subsection \<open>State and environment of a fetch cycle\<close>

text \<open>
  A fetch fails when \<open>fetch\<close> rejects (the network) or when \<open>response.json()\<close>
  rejects (the body does not parse).
\<close>

datatype fetch_error = NetworkError string | JsonError string

text \<open>
  What one cycle takes from outside: the clock when it runs, the outcome of fetching and
  parsing each artifact at a URL, and the formatter of the clock.
\<close>

record cycle =
  date_now :: nat
  fetch_leaderboard :: "string \<Rightarrow> fetch_error + leaderboard_entry list"
  fetch_history :: "string \<Rightarrow> fetch_error + history_entry list"
  localeTimeString :: "nat \<Rightarrow> string"

text \<open>A point of the chart: an object with the keys \<open>time\<close>, \<open>total\<close> and one key per team.\<close>

datatype json_value = JString string | JNumber int

type_synonym chart_point = "string \<rightharpoonup> json_value"

datatype console_line = ErrorFetchingData fetch_error

text \<open>
  The component's state (\<open>useState\<close>), with the lines written by \<open>console.error\<close>
  and the URLs passed to \<open>fetch\<close>, in order.
\<close>

record app =
  leaderboard :: "leaderboard_entry list"
  historyData :: "chart_point list"
  loading :: bool
  lastUpdate :: "string option"
  console :: "console_line list"
  fetched :: "string list"

subsection \<open>fetchData and the polling\<close>

text \<open>
  The base object gets the entry's time and total; then every pair of
  \<open>Object.entries(entry.teams)\<close> is assigned to it under its identifier. The
  identifiers of one object differ, so the order of the assignments does not matter.
\<close>

definition transformEntry :: "history_entry \<Rightarrow> chart_point" where
  "transformEntry entry =
     (let base = [''time'' \<mapsto> JString (h_time entry), ''total'' \<mapsto> JNumber (h_total entry)]
      in (\<lambda>key. case h_teams entry key of
                   Some count \<Rightarrow> object_set base key (JNumber count) key
                 | None \<Rightarrow> base key))"

definition fetchData :: "module_consts \<Rightarrow> cycle \<Rightarrow> app \<Rightarrow> app" where
  "fetchData md c st =
     (let st1 = st\<lparr>loading := True\<rparr>;
          st2 = st1\<lparr>fetched := fetched st1 @ [LEADERBOARD_URL md]\<rparr>
      in (case fetch_leaderboard c (LEADERBOARD_URL md) of
            Inl error \<Rightarrow>
              st2\<lparr>console := console st2 @ [ErrorFetchingData error], loading := False\<rparr>
          | Inr newLeaderboard' \<Rightarrow>
              (let st3 = st2\<lparr>leaderboard := newLeaderboard'\<rparr>;
                   st4 = st3\<lparr>fetched := fetched st3 @ [HISTORY_URL md]\<rparr>
               in (case fetch_history c (HISTORY_URL md) of
                     Inl error \<Rightarrow>
                       st4\<lparr>console := console st4 @ [ErrorFetchingData error],
                           loading := False\<rparr>
                   | Inr rawHistory \<Rightarrow>
                       st4\<lparr>historyData := map transformEntry rawHistory,
                           lastUpdate := Some (localeTimeString c (date_now c)),
                           loading := False\<rparr>))))"

definition initialApp :: app where
  "initialApp =
     \<lparr>leaderboard = [], historyData = [], loading = True, lastUpdate = None,
      console = [], fetched = []\<rparr>"

text \<open>
  The mounted component: the first cycle is the initial load, the following ones are the
  ticks of the interval.
\<close>

definition App :: "module_consts \<Rightarrow> cycle list \<Rightarrow> app" where
  "App md cycles = foldl (\<lambda>st c. fetchData md c st) initialApp cycles"

subsection \<open>Concrete cycles\<close>

definition servedLeaderboard :: "leaderboard_entry list" where
  "servedLeaderboard =
     [\<lparr>lb_id = ''a'', lb_name = ''Alpha'', total_commits = 3, lb_color = ''red''\<rparr>]"

definition shownApp :: app where
  "shownApp =
     \<lparr>leaderboard = [\<lparr>lb_id = ''a'', lb_name = ''Alpha'', total_commits = 1, lb_color = ''red''\<rparr>],
      historyData = [], loading = False, lastUpdate = Some ''10:00:00 PM'',
      console = [], fetched = []\<rparr>"

definition goodCycle :: "nat \<Rightarrow> cycle" where
  "goodCycle t =
     \<lparr>date_now = t, fetch_leaderboard = (\<lambda>url. Inr servedLeaderboard),
      fetch_history = (\<lambda>url. Inr []), localeTimeString = (\<lambda>n. ''10:13:20 PM'')\<rparr>"

definition historyDownCycle :: cycle where
  "historyDownCycle =
     \<lparr>date_now = 31000, fetch_leaderboard = (\<lambda>url. Inr servedLeaderboard),
      fetch_history = (\<lambda>url. Inl (NetworkError ''Failed to fetch'')),
      localeTimeString = (\<lambda>n. ''10:13:20 PM'')\<rparr>"

definition leaderboardDownCycle :: cycle where
  "leaderboardDownCycle =
     \<lparr>date_now = 31000, fetch_leaderboard = (\<lambda>url. Inl (JsonError ''Unexpected token'')),
      fetch_history = (\<lambda>url. Inr []),
      localeTimeString = (\<lambda>n. ''10:13:20 PM'')\<rparr>"

section \<open>Lemmas: the language's library\<close>

lemma map_of_map_set: "map_of (map_set k v m) = (map_of m)(k \<mapsto> v)"
  by (induction m) (auto simp: fun_eq_iff)

lemma keys_map_set:
  "map fst (map_set k v m) = (if k \<in> fst ` set m then map fst m else map fst m @ [k])"
  by (induction m) force+

lemma set_keys_map_set: "fst ` set (map_set k v m) = insert k (fst ` set m)"
proof -
  have "set (map fst (map_set k v m)) = insert k (set (map fst m))"
    unfolding keys_map_set by auto
  then show ?thesis by simp
qed

lemma distinct_map_set: "distinct (map fst m) \<Longrightarrow> distinct (map fst (map_set k v m))"
  by (simp add: keys_map_set)

lemma map_set_fresh: "k \<notin> fst ` set m \<Longrightarrow> map_set k v m = m @ [(k, v)]"
  by (induction m) auto

lemma foldl_map_set_distinct:
  "distinct (map fst (m @ kvs)) \<Longrightarrow>
   foldl (\<lambda>m kv. map_set (fst kv) (snd kv) m) m kvs = m @ kvs"
proof (induction kvs arbitrary: m)
  case Nil
  then show ?case by simp
next
  case (Cons kv kvs)
  have fresh: "fst kv \<notin> fst ` set m" using Cons.prems by auto
  have "distinct (map fst ((m @ [kv]) @ kvs))" using Cons.prems by simp
  from Cons.IH [OF this] show ?case
    by (simp add: map_set_fresh [OF fresh])
qed

lemma new_Map_distinct: "distinct (map fst kvs) \<Longrightarrow> new_Map kvs = kvs"
  using foldl_map_set_distinct [of "[]" kvs] by (simp add: new_Map_def)

lemma foldl_map_set_keys_distinct:
  "distinct (map fst m) \<Longrightarrow>
   distinct (map fst (foldl (\<lambda>m kv. map_set (fst kv) (snd kv) m) m kvs))"
  by (induction kvs arbitrary: m) (simp_all add: distinct_map_set)

lemma foldl_map_set_keys:
  "fst ` set (foldl (\<lambda>m kv. map_set (fst kv) (snd kv) m) m kvs) = fst ` set m \<union> fst ` set kvs"
  by (induction kvs arbitrary: m) (simp_all add: set_keys_map_set)

lemma distinct_new_Map: "distinct (map fst (new_Map kvs))"
  using foldl_map_set_keys_distinct [of "[]" kvs] by (simp add: new_Map_def)

lemma insort_cmp_set: "set (insort_cmp cmp x xs) = insert x (set xs)"
  by (induction xs) auto

lemma array_sort_set: "set (array_sort cmp xs) = set xs"
  by (induction xs) (simp_all add: array_sort_def insort_cmp_set)

lemma insort_cmp_distinct:
  "distinct (map f (insort_cmp cmp x xs)) \<longleftrightarrow> f x \<notin> f ` set xs \<and> distinct (map f xs)"
  by (induction xs) (auto simp: insort_cmp_set)

lemma array_sort_distinct: "distinct (map f (array_sort cmp xs)) \<longleftrightarrow> distinct (map f xs)"
proof (induction xs)
  case Nil
  show ?case by (simp add: array_sort_def)
next
  case (Cons x xs)
  have "array_sort cmp (x # xs) = insort_cmp cmp x (array_sort cmp xs)"
    by (simp add: array_sort_def)
  then show ?case
    by (simp add: insort_cmp_distinct array_sort_set Cons.IH)
qed

lemma insort_desc_sorted:
  "sorted_wrt (\<lambda>a b. total_commits b \<le> total_commits a) xs \<Longrightarrow>
   sorted_wrt (\<lambda>a b. total_commits b \<le> total_commits a)
     (insort_cmp (\<lambda>a b. total_commits b - total_commits a) x xs)"
  by (induction xs) (auto simp: insort_cmp_set)

lemma array_sort_desc_sorted:
  "sorted_wrt (\<lambda>a b. total_commits b \<le> total_commits a)
     (array_sort (\<lambda>a b. total_commits b - total_commits a) xs)"
  by (induction xs) (simp_all add: array_sort_def insort_desc_sorted)

lemma length_slice_last: "length (slice_last n xs) = min n (length xs)"
  by (simp add: slice_last_def)

lemma find_app:
  "find P (xs @ ys) = (case find P xs of None \<Rightarrow> find P ys | Some x \<Rightarrow> Some x)"
  by (induction xs) auto

lemma find_unique:
  "distinct (map f xs) \<Longrightarrow> x \<in> set xs \<Longrightarrow> find (\<lambda>y. f y = f x) xs = Some x"
  by (induction xs) (auto simp: image_iff)

lemma find_map_of: "find (\<lambda>x. f x = k) xs = map_of (map (\<lambda>x. (f x, x)) xs) k"
  by (induction xs) auto

lemma find_None_filter: "find P xs = None \<Longrightarrow> filter P xs = []"
  by (induction xs) (auto split: if_splits)

lemma foldl_add_sum: "foldl (\<lambda>acc x. acc + f x) a xs = a + sum_list (map f xs)"
  for a :: int
  by (induction xs arbitrary: a) simp_all

lemma sum_list_filter_zero:
  "(\<And>x. x \<in> set xs \<Longrightarrow> \<not> P x \<Longrightarrow> f x = (0::int)) \<Longrightarrow>
   sum_list (map f (filter P xs)) = sum_list (map f xs)"
  by (induction xs) auto

section \<open>Lemmas: counting\<close>

lemma teamWindowCommits_sum:
  "teamWindowCommits e t = sum_list (map (repoCount e) (team_repos t))"
  by (simp add: teamWindowCommits_def foldl_add_sum)

lemma getCommitsInWindow_nonneg: "0 \<le> getCommitsInWindow e ro rn s u"
  by (simp add: getCommitsInWindow_def split: sum.splits)

lemma repoCount_nonneg: "0 \<le> repoCount e r"
  by (simp add: repoCount_def getCommitsInWindow_nonneg split: prod.splits)

lemma teamWindowCommits_nonneg: "0 \<le> teamWindowCommits e t"
  by (auto simp: teamWindowCommits_sum repoCount_nonneg intro!: sum_list_nonneg)

lemma windowCount_nonneg: "0 \<le> windowCount e k"
  by (auto simp: windowCount_def windowCountOf_def teamWindowCommits_nonneg
      intro!: sum_list_nonneg)

lemma repoFails_count: "repoFails e r \<Longrightarrow> repoCount e r = 0"
  by (auto simp: repoFails_def repoCount_def getCommitsInWindow_def
      split: prod.splits sum.splits)

lemma teamWindowCommits_ok_repos:
  "teamWindowCommits e t =
     sum_list (map (repoCount e) (filter (\<lambda>r. \<not> repoFails e r) (team_repos t)))"
  using sum_list_filter_zero [of "team_repos t" "\<lambda>r. \<not> repoFails e r" "repoCount e"]
  by (simp add: teamWindowCommits_sum repoFails_count)

section \<open>Lemmas: the loop over the teams\<close>

lemma processTeam_pair:
  "processTeam e (m, h) t =
     (map_set (team_id t) (stepEntry e m t) m,
      h\<lparr>h_teams := object_set (h_teams h) (team_id t) (teamWindowCommits e t),
        h_total := h_total h + teamWindowCommits e t\<rparr>)"
  by (simp add: processTeam_def Let_def map_get_def stepEntry_def split: option.splits)

lemma fold_map_of:
  "map_of (fst (foldl (processTeam e) (m, h) ts)) k =
     (case map_of m k of
        Some v \<Rightarrow> Some (v\<lparr>total_commits := total_commits v + windowCountOf e ts k\<rparr>)
      | None \<Rightarrow>
         (case find (\<lambda>t. team_id t = k) ts of
            None \<Rightarrow> None
          | Some t \<Rightarrow> Some \<lparr>lb_id = k, lb_name = team_name t,
                           total_commits = windowCountOf e ts k, lb_color = team_color t\<rparr>))"
proof (induction ts arbitrary: m h)
  case Nil
  show ?case by (simp add: windowCountOf_def split: option.splits)
next
  case (Cons t ts)
  show ?case
  proof (cases "team_id t = k")
    case True
    then show ?thesis
      by (simp add: processTeam_pair Cons.IH map_of_map_set windowCountOf_def stepEntry_def
          split: option.splits)
  next
    case False
    then show ?thesis
      by (simp add: processTeam_pair Cons.IH map_of_map_set windowCountOf_def
          split: option.splits)
  qed
qed

lemma fold_keys_distinct:
  "distinct (map fst m) \<Longrightarrow> distinct (map fst (fst (foldl (processTeam e) (m, h) ts)))"
  by (induction ts arbitrary: m h) (simp_all add: processTeam_pair distinct_map_set)

lemma fold_keys:
  "fst ` set (fst (foldl (processTeam e) (m, h) ts)) = fst ` set m \<union> team_id ` set ts"
  by (induction ts arbitrary: m h) (simp_all add: processTeam_pair set_keys_map_set)

lemma fold_history:
  "snd (foldl (processTeam e) (m, h) ts) =
     h\<lparr>h_teams := (\<lambda>k. if k = ''__proto__'' then h_teams h k
                        else (case find (\<lambda>t. team_id t = k) (rev ts) of
                                None \<Rightarrow> h_teams h k
                              | Some t \<Rightarrow> Some (teamWindowCommits e t))),
       h_total := h_total h + sum_list (map (teamWindowCommits e) ts)\<rparr>"
proof (induction ts arbitrary: m h)
  case Nil
  have "(\<lambda>k. if k = ''__proto__'' then h_teams h ''__proto__'' else h_teams h k) = h_teams h"
    by (auto simp: fun_eq_iff)
  then show ?case by (simp cong: if_cong)
next
  case (Cons t ts)
  show ?case
    by (simp add: processTeam_pair Cons.IH fun_eq_iff find_app object_set_def
        split: option.splits)
qed

lemma keyed_map_set: "keyed m \<Longrightarrow> lb_id v = k \<Longrightarrow> keyed (map_set k v m)"
  by (induction m) (auto simp: keyed_def)

lemma keyed_map_of: "keyed m \<Longrightarrow> map_of m k = Some v \<Longrightarrow> lb_id v = k"
  by (induction m) (auto simp: keyed_def split: if_splits)

lemma keyed_ids: "keyed m \<Longrightarrow> map lb_id (map snd m) = map fst m"
  by (induction m) (auto simp: keyed_def)

lemma keyed_new_Map_aux:
  "keyed m \<Longrightarrow>
   keyed (foldl (\<lambda>m kv. map_set (fst kv) (snd kv) m) m (map (\<lambda>t. (lb_id t, t)) lb))"
  by (induction lb arbitrary: m) (simp_all add: keyed_map_set)

lemma keyed_new_Map: "keyed (new_Map (map (\<lambda>t. (lb_id t, t)) lb))"
  using keyed_new_Map_aux [of "[]" lb] by (simp add: new_Map_def keyed_def)

lemma stepEntry_id: "keyed m \<Longrightarrow> lb_id (stepEntry e m t) = team_id t"
  by (auto simp: stepEntry_def dest: keyed_map_of split: option.splits)

lemma fold_keyed: "keyed m \<Longrightarrow> keyed (fst (foldl (processTeam e) (m, h) ts))"
  by (induction ts arbitrary: m h) (simp_all add: processTeam_pair keyed_map_set stepEntry_id)

lemma processTeams_keyed: "keyed (fst (processTeams e fs))"
  by (simp add: processTeams_def fold_keyed keyed_new_Map)

lemma processTeams_distinct: "distinct (map fst (fst (processTeams e fs)))"
  by (simp add: processTeams_def fold_keys_distinct distinct_new_Map)

section \<open>Lemmas: the new leaderboard\<close>

lemma newLeaderboard_distinct: "distinct (map lb_id (newLeaderboard e fs))"
proof -
  have "map lb_id (map_values (fst (processTeams e fs))) = map fst (fst (processTeams e fs))"
    unfolding map_values_def by (rule keyed_ids [OF processTeams_keyed])
  then show ?thesis
    by (simp only: newLeaderboard_def array_sort_distinct processTeams_distinct)
qed

lemma newLeaderboard_set:
  "y \<in> set (newLeaderboard e fs) \<longleftrightarrow> map_of (fst (processTeams e fs)) (lb_id y) = Some y"
proof
  assume "y \<in> set (newLeaderboard e fs)"
  then obtain k where kv: "(k, y) \<in> set (fst (processTeams e fs))"
    by (auto simp: newLeaderboard_def array_sort_set map_values_def)
  then have "map_of (fst (processTeams e fs)) k = Some y"
    using processTeams_distinct [of e fs] by simp
  moreover from this have "lb_id y = k"
    using processTeams_keyed keyed_map_of by blast
  ultimately show "map_of (fst (processTeams e fs)) (lb_id y) = Some y" by simp
next
  assume "map_of (fst (processTeams e fs)) (lb_id y) = Some y"
  then have "(lb_id y, y) \<in> set (fst (processTeams e fs))" by (rule map_of_SomeD)
  then show "y \<in> set (newLeaderboard e fs)"
    by (force simp: newLeaderboard_def array_sort_set map_values_def)
qed

lemma find_newLeaderboard:
  "find (\<lambda>x. lb_id x = k) (newLeaderboard e fs) = map_of (fst (processTeams e fs)) k"
proof (cases "map_of (fst (processTeams e fs)) k")
  case None
  have "\<not> (\<exists>x\<in>set (newLeaderboard e fs). lb_id x = k)"
    using None by (auto simp: newLeaderboard_set)
  then show ?thesis using None by (simp add: find_None_iff)
next
  case (Some v)
  have id: "lb_id v = k" using Some processTeams_keyed keyed_map_of by blast
  with Some have "v \<in> set (newLeaderboard e fs)" by (simp add: newLeaderboard_set)
  from find_unique [OF newLeaderboard_distinct this] show ?thesis
    using Some id by simp
qed

lemma initial_map_of:
  "distinct (map lb_id lb) \<Longrightarrow>
   map_of (new_Map (map (\<lambda>t. (lb_id t, t)) lb)) k = find (\<lambda>x. lb_id x = k) lb"
  by (simp add: new_Map_distinct comp_def find_map_of)

lemma processTeams_map_of:
  assumes "distinct (map lb_id (currentLeaderboard fs))"
  shows "map_of (fst (processTeams e fs)) k =
     (case find (\<lambda>x. lb_id x = k) (currentLeaderboard fs) of
        Some v \<Rightarrow> Some (v\<lparr>total_commits := total_commits v + windowCount e k\<rparr>)
      | None \<Rightarrow>
         (case find (\<lambda>t. team_id t = k) (teamsConfig e) of
            None \<Rightarrow> None
          | Some t \<Rightarrow> Some \<lparr>lb_id = k, lb_name = team_name t,
                           total_commits = windowCount e k, lb_color = team_color t\<rparr>))"
  unfolding windowCount_def processTeams_def
  by (simp add: fold_map_of initial_map_of [OF assms])

lemma totalOf_newLeaderboard:
  assumes "distinct (map lb_id (currentLeaderboard fs))"
  shows "totalOf (newLeaderboard e fs) k = totalOf (currentLeaderboard fs) k + windowCount e k"
  by (auto simp: totalOf_def find_newLeaderboard processTeams_map_of [OF assms]
      windowCount_def windowCountOf_def find_None_filter split: option.splits)

lemma newLeaderboard_ids:
  "lb_id ` set (newLeaderboard e fs) =
     lb_id ` set (currentLeaderboard fs) \<union> team_id ` set (teamsConfig e)"
proof -
  let ?m = "fst (processTeams e fs)"
  have "lb_id ` set (newLeaderboard e fs) = set (map lb_id (map_values ?m))"
    by (simp add: newLeaderboard_def array_sort_set)
  also have "\<dots> = set (map fst ?m)"
    unfolding map_values_def by (simp only: keyed_ids [OF processTeams_keyed])
  also have "\<dots> = lb_id ` set (currentLeaderboard fs) \<union> team_id ` set (teamsConfig e)"
    by (simp add: processTeams_def fold_keys new_Map_def foldl_map_set_keys image_image)
  finally show ?thesis .
qed

section \<open>Lemmas: writing and publishing\<close>

lemma commitFiles_leaderboard:
  "currentLeaderboard (fst (commitFiles e fs lb h)) =
     (if writeFileSync_throws e LEADERBOARD_FILE then currentLeaderboard fs else lb)"
  by (simp add: commitFiles_def currentLeaderboard_def readJson_def Let_def
      split: option.splits)

lemma fst_worker: "fst (worker e fs) = fst (runTracker e fs)"
  by (simp add: worker_def split: prod.splits sum.splits)

lemma worker_leaderboard:
  "currentLeaderboard (fst (worker e fs)) =
     (if writeFileSync_throws e LEADERBOARD_FILE then currentLeaderboard fs
      else newLeaderboard e fs)"
  using commitFiles_leaderboard [of e fs "newLeaderboard e fs" "newHistory e fs"]
  by (simp add: fst_worker runTracker_def)

lemma worker_written:
  assumes "\<not> writeFileSync_throws e LEADERBOARD_FILE" "\<not> writeFileSync_throws e HISTORY_FILE"
  shows "worker e fs =
     (\<lparr>leaderboard_json = Some (newLeaderboard e fs), history_json = Some (newHistory e fs)\<rparr>,
      if exec_err e = None then 0 else 1)"
  using assms
  by (simp add: worker_def runTracker_def commitFiles_def Let_def split: option.splits)

lemma runs_snoc: "runs (es @ [e]) fs = fst (worker e (runs es fs))"
  by (simp add: runs_def)

lemma runs_distinct:
  assumes "distinct (map lb_id (currentLeaderboard fs))"
  shows "distinct (map lb_id (currentLeaderboard (runs es fs)))"
proof (induction es rule: rev_induct)
  case Nil
  show ?case using assms by (simp add: runs_def)
next
  case (snoc e es)
  then show ?case
    by (simp add: runs_snoc worker_leaderboard newLeaderboard_distinct)
qed

lemma runs_total:
  assumes "distinct (map lb_id (currentLeaderboard fs))"
    and "\<forall>e\<in>set es. \<not> writeFileSync_throws e LEADERBOARD_FILE"
  shows "totalOf (currentLeaderboard (runs es fs)) k =
         totalOf (currentLeaderboard fs) k + sum_list (map (\<lambda>e. windowCount e k) es)"
  using assms(2)
proof (induction es rule: rev_induct)
  case Nil
  show ?case by (simp add: runs_def)
next
  case (snoc e es)
  then show ?case
    by (simp add: runs_snoc worker_leaderboard
        totalOf_newLeaderboard [OF runs_distinct [OF assms(1)]])
qed

lemma run_monotone:
  assumes "distinct (map lb_id (currentLeaderboard fs))"
  shows "totalOf (currentLeaderboard fs) k \<le> totalOf (currentLeaderboard (fst (worker e fs))) k"
  using windowCount_nonneg [of e k]
  by (simp add: worker_leaderboard totalOf_newLeaderboard [OF assms])

lemma length_newHistory_le: "length (newHistory e fs) \<le> 50"
  by (simp add: newHistory_def length_slice_last)

lemma newHistory_full:
  assumes "length (history fs) = 50"
  shows "newHistory e fs = tl (history fs) @ [newHistoryEntry e fs]"
proof -
  from assms obtain x xs where h: "history fs = x # xs"
    by (cases "history fs") auto
  with assms have "length xs = 49" by simp
  with h show ?thesis
    by (simp add: newHistory_def slice_last_def)
qed

lemmas eval_defs = scenarioTeams_def scenarioEnv_def emptyFiles_def oldFiles_def
  newLeaderboard_def processTeams_def processTeam_def teamWindowCommits_def repoCount_def
  getCommitsInWindow_def sinceTime_def untilTime_def teamsConfig_def currentLeaderboard_def
  history_def readJson_def initialHistoryEntry_def new_Map_def map_get_def
  map_values_def array_sort_def slice_last_def newHistory_def newHistoryEntry_def
  object_set_def Let_def

section \<open>Lemmas: failing queries\<close>

lemma repoCount_teams_json: "repoCount (e\<lparr>teams_json := c\<rparr>) = repoCount e"
  by (simp add: fun_eq_iff repoCount_def getCommitsInWindow_def sinceTime_def untilTime_def)

lemma teamWindowCommits_teams_json:
  "teamWindowCommits (e\<lparr>teams_json := c\<rparr>) t = teamWindowCommits e t"
  by (simp add: teamWindowCommits_sum repoCount_teams_json)

lemma teamWindowCommits_dropFailing:
  "teamWindowCommits e (dropFailing e t) = teamWindowCommits e t"
  using teamWindowCommits_ok_repos [of e t]
  by (simp add: teamWindowCommits_sum dropFailing_def)

lemma dropFailing_fields:
  "team_id (dropFailing e t) = team_id t"
  "team_name (dropFailing e t) = team_name t"
  "team_color (dropFailing e t) = team_color t"
  by (simp_all add: dropFailing_def)

lemma processTeam_dropFailing:
  "processTeam (e\<lparr>teams_json := c\<rparr>) st (dropFailing e t) = processTeam e st t"
  unfolding processTeam_def Let_def teamWindowCommits_teams_json
    teamWindowCommits_dropFailing dropFailing_fields ..

lemma foldl_dropFailing:
  "foldl (processTeam (e\<lparr>teams_json := c\<rparr>)) st (map (dropFailing e) ts)
     = foldl (processTeam e) st ts"
  by (induction ts arbitrary: st) (simp_all add: processTeam_dropFailing)

lemma processTeams_dropFailing:
  "processTeams (e\<lparr>teams_json := Some (map (dropFailing e) (teamsConfig e))\<rparr>) fs
     = processTeams e fs"
  by (simp add: processTeams_def teamsConfig_def readJson_def foldl_dropFailing
      initialHistoryEntry_def)

section \<open>Lemmas: the new history entry and old entries\<close>

lemma newHistoryEntry_eq:
  "newHistoryEntry e fs =
     \<lparr>h_time = toLocaleTimeString e (now e), h_timestamp = now e,
      h_teams = (\<lambda>k. if k = ''__proto__'' then None
                      else (case find (\<lambda>t. team_id t = k) (rev (teamsConfig e)) of
                              None \<Rightarrow> None
                            | Some t \<Rightarrow> Some (teamWindowCommits e t))),
      h_total = sum_list (map (teamWindowCommits e) (teamsConfig e))\<rparr>"
  by (simp add: newHistoryEntry_def processTeams_def fold_history initialHistoryEntry_def
      fun_eq_iff split: option.splits)

lemma last_newHistory: "last (newHistory e fs) = newHistoryEntry e fs"
  by (simp add: newHistory_def slice_last_def)

text \<open>
  With unique team identifiers, the new history entry maps every configured team whose
  identifier is not \<open>__proto__\<close> to the sum of the counts of its repositories, and
  no other identifier; its total is the sum of the window counts of all teams; it is the
  last entry of the new history.
\<close>

lemma window_counts_of_plain_identifiers:
  assumes "distinct (map team_id (teamsConfig e))"
  shows "(\<forall>t\<in>set (teamsConfig e). team_id t \<noteq> ''__proto__'' \<longrightarrow>
            h_teams (newHistoryEntry e fs) (team_id t)
              = Some (sum_list (map (repoCount e) (team_repos t))))
       \<and> dom (h_teams (newHistoryEntry e fs)) = team_id ` set (teamsConfig e) - {''__proto__''}
       \<and> h_total (newHistoryEntry e fs)
            = sum_list (map (\<lambda>t. sum_list (map (repoCount e) (team_repos t))) (teamsConfig e))
       \<and> last (newHistory e fs) = newHistoryEntry e fs"
proof (intro conjI ballI impI)
  fix t
  assume t: "t \<in> set (teamsConfig e)" and plain: "team_id t \<noteq> ''__proto__''"
  have "distinct (map team_id (rev (teamsConfig e)))"
    using assms by (simp add: rev_map [symmetric])
  from find_unique [OF this, of t] t
  have "find (\<lambda>y. team_id y = team_id t) (rev (teamsConfig e)) = Some t" by simp
  with plain show "h_teams (newHistoryEntry e fs) (team_id t)
      = Some (sum_list (map (repoCount e) (team_repos t)))"
    by (simp add: newHistoryEntry_eq teamWindowCommits_sum)
next
  show "dom (h_teams (newHistoryEntry e fs)) = team_id ` set (teamsConfig e) - {''__proto__''}"
    by (auto simp: newHistoryEntry_eq dom_def find_None_iff image_iff
        split: option.splits if_splits)
  have "teamWindowCommits e = (\<lambda>t. sum_list (map (repoCount e) (team_repos t)))"
    by (simp add: fun_eq_iff teamWindowCommits_sum)
  then show "h_total (newHistoryEntry e fs)
      = sum_list (map (\<lambda>t. sum_list (map (repoCount e) (team_repos t))) (teamsConfig e))"
    by (simp add: newHistoryEntry_eq)
  show "last (newHistory e fs) = newHistoryEntry e fs" by (rule last_newHistory)
qed

lemma scenario_window_counts:
  "h_teams (newHistoryEntry scenarioEnv emptyFiles) ''a'' = Some 3
   \<and> h_teams (newHistoryEntry scenarioEnv emptyFiles) ''b'' = Some 0
   \<and> h_total (newHistoryEntry scenarioEnv emptyFiles) = 3"
  by (simp add: eval_defs)

lemma windowCount_unconfigured:
  "k \<notin> team_id ` set (teamsConfig e) \<Longrightarrow> windowCount e k = 0"
proof -
  assume "k \<notin> team_id ` set (teamsConfig e)"
  then have "filter (\<lambda>t. team_id t = k) (teamsConfig e) = []"
    by (auto simp: filter_empty_conv)
  then show ?thesis by (simp add: windowCount_def windowCountOf_def)
qed

lemma old_entry_updated:
  assumes "distinct (map lb_id (currentLeaderboard fs))" and "x \<in> set (currentLeaderboard fs)"
  shows "map_of (fst (processTeams e fs)) (lb_id x)
     = Some (x\<lparr>total_commits := total_commits x + windowCount e (lb_id x)\<rparr>)"
  using find_unique [OF assms] by (simp add: processTeams_map_of [OF assms(1)])

section \<open>Lemmas: the concrete runs\<close>

lemma scenario_empty_leaderboard:
  "newLeaderboard scenarioEnv emptyFiles =
     [\<lparr>lb_id = ''a'', lb_name = ''Alpha'', total_commits = 3, lb_color = ''red''\<rparr>,
      \<lparr>lb_id = ''b'', lb_name = ''Beta'', total_commits = 0, lb_color = ''blue''\<rparr>]"
  by (simp add: eval_defs)

lemma scenario_old_leaderboard:
  "newLeaderboard scenarioEnv oldFiles =
     [\<lparr>lb_id = ''a'', lb_name = ''Old'', total_commits = 13, lb_color = ''black''\<rparr>,
      \<lparr>lb_id = ''z'', lb_name = ''Zeta'', total_commits = 7, lb_color = ''green''\<rparr>,
      \<lparr>lb_id = ''b'', lb_name = ''Beta'', total_commits = 0, lb_color = ''blue''\<rparr>]"
  by (simp add: eval_defs)

lemma scenario_writes:
  "\<not> writeFileSync_throws scenarioEnv LEADERBOARD_FILE"
  "\<not> writeFileSync_throws scenarioEnv HISTORY_FILE"
  "exec_err scenarioEnv = None"
  by (simp_all add: scenarioEnv_def)

lemma scenario_old_distinct: "distinct (map lb_id (currentLeaderboard oldFiles))"
  by (simp add: oldFiles_def currentLeaderboard_def readJson_def)

section \<open>Lemmas: the dashboard\<close>

lemma fetchData_leaderboard_fails:
  assumes "fetch_leaderboard c (LEADERBOARD_URL md) = Inl err"
  shows "fetchData md c st =
     st\<lparr>loading := False, fetched := fetched st @ [LEADERBOARD_URL md],
        console := console st @ [ErrorFetchingData err]\<rparr>"
  using assms by (simp add: fetchData_def Let_def)

lemma fetchData_history_fails:
  assumes "fetch_leaderboard c (LEADERBOARD_URL md) = Inr lb"
    and "fetch_history c (HISTORY_URL md) = Inl err"
  shows "fetchData md c st =
     st\<lparr>loading := False, fetched := fetched st @ [LEADERBOARD_URL md, HISTORY_URL md],
        leaderboard := lb,
        console := console st @ [ErrorFetchingData err]\<rparr>"
  using assms by (simp add: fetchData_def Let_def)

lemma fetchData_ok:
  assumes "fetch_leaderboard c (LEADERBOARD_URL md) = Inr lb"
    and "fetch_history c (HISTORY_URL md) = Inr raw"
  shows "fetchData md c st =
     st\<lparr>loading := False, fetched := fetched st @ [LEADERBOARD_URL md, HISTORY_URL md],
        leaderboard := lb, historyData := map transformEntry raw,
        lastUpdate := Some (localeTimeString c (date_now c))\<rparr>"
  using assms by (simp add: fetchData_def Let_def)

lemma fetchData_fetched:
  "fetched (fetchData md c st) =
     fetched st @
       (if isl (fetch_leaderboard c (LEADERBOARD_URL md)) then [LEADERBOARD_URL md]
        else [LEADERBOARD_URL md, HISTORY_URL md])"
  by (simp add: fetchData_def Let_def split: sum.splits)

lemma App_snoc: "App md (cycles @ [c]) = fetchData md c (App md cycles)"
  by (simp add: App_def)

lemma App_fetched: "set (fetched (App md cycles)) \<subseteq> {LEADERBOARD_URL md, HISTORY_URL md}"
  by (induction cycles rule: rev_induct)
     (simp_all add: App_snoc fetchData_fetched, simp add: App_def initialApp_def)

section \<open>The claims\<close>

text \<open>
  C1. Starting from a leaderboard with one entry per identifier, after any number of runs
  that write the leaderboard file, the total shown for an identifier is its total before
  the runs (0 when it had no entry) plus the sum of its window counts over the runs; every
  team configured in one of the runs has an entry; and one more run never lowers a total.
\<close>

theorem leaderboard_total_is_sum_of_window_counts:
  assumes "distinct (map lb_id (currentLeaderboard fs))"
    and "\<forall>e\<in>set es. \<not> writeFileSync_throws e LEADERBOARD_FILE"
  shows "totalOf (currentLeaderboard (runs es fs)) k =
           totalOf (currentLeaderboard fs) k + sum_list (map (\<lambda>e. windowCount e k) es)
       \<and> (k \<notin> lb_id ` set (currentLeaderboard fs) \<longrightarrow>
            totalOf (currentLeaderboard (runs es fs)) k = sum_list (map (\<lambda>e. windowCount e k) es))
       \<and> (\<forall>e\<in>set es. \<forall>t\<in>set (teamsConfig e).
            team_id t \<in> lb_id ` set (currentLeaderboard (runs es fs)))
       \<and> totalOf (currentLeaderboard (runs es fs)) k
            \<le> totalOf (currentLeaderboard (runs (es @ [e']) fs)) k"
proof (intro conjI)
  show eq: "totalOf (currentLeaderboard (runs es fs)) k =
      totalOf (currentLeaderboard fs) k + sum_list (map (\<lambda>e. windowCount e k) es)"
    by (rule runs_total [OF assms])
  show "k \<notin> lb_id ` set (currentLeaderboard fs) \<longrightarrow>
      totalOf (currentLeaderboard (runs es fs)) k = sum_list (map (\<lambda>e. windowCount e k) es)"
  proof
    assume "k \<notin> lb_id ` set (currentLeaderboard fs)"
    then have "find (\<lambda>x. lb_id x = k) (currentLeaderboard fs) = None"
      by (auto simp: find_None_iff)
    then have "totalOf (currentLeaderboard fs) k = 0"
      by (simp add: totalOf_def)
    with eq show "totalOf (currentLeaderboard (runs es fs)) k = sum_list (map (\<lambda>e. windowCount e k) es)"
      by simp
  qed
  show "\<forall>e\<in>set es. \<forall>t\<in>set (teamsConfig e).
      team_id t \<in> lb_id ` set (currentLeaderboard (runs es fs))"
    using assms(2)
  proof (induction es rule: rev_induct)
    case Nil
    show ?case by simp
  next
    case (snoc e es)
    have ids: "lb_id ` set (currentLeaderboard (runs (es @ [e]) fs)) =
        lb_id ` set (currentLeaderboard (runs es fs)) \<union> team_id ` set (teamsConfig e)"
      using snoc.prems by (simp add: runs_snoc worker_leaderboard newLeaderboard_ids)
    from snoc show ?case
      unfolding ids by auto
  qed
  show "totalOf (currentLeaderboard (runs es fs)) k
      \<le> totalOf (currentLeaderboard (runs (es @ [e']) fs)) k"
    unfolding runs_snoc by (rule run_monotone [OF runs_distinct [OF assms(1)]])
qed

theorem leaderboard_total_is_sum_of_window_counts_witness:
  "distinct (map lb_id (currentLeaderboard oldFiles))
   \<and> \<not> writeFileSync_throws scenarioEnv LEADERBOARD_FILE
   \<and> totalOf (currentLeaderboard oldFiles) ''a'' = 10
   \<and> windowCount scenarioEnv ''a'' = 3
   \<and> totalOf (currentLeaderboard (runs [scenarioEnv, scenarioEnv] oldFiles)) ''a'' = 16
   \<and> totalOf (currentLeaderboard (runs [scenarioEnv, scenarioEnv] oldFiles)) ''b'' = 0
   \<and> ''b'' \<in> lb_id ` set (currentLeaderboard (runs [scenarioEnv, scenarioEnv] oldFiles))"
proof -
  have d: "distinct (map lb_id (currentLeaderboard oldFiles))"
    by (simp add: oldFiles_def currentLeaderboard_def readJson_def)
  have w: "\<forall>e\<in>set [scenarioEnv, scenarioEnv]. \<not> writeFileSync_throws e LEADERBOARD_FILE"
    by (simp add: scenarioEnv_def)
  have w1: "\<not> writeFileSync_throws scenarioEnv LEADERBOARD_FILE"
    by (simp add: scenarioEnv_def)
  have t0: "totalOf (currentLeaderboard oldFiles) ''a'' = 10"
    by (simp add: totalOf_def oldFiles_def currentLeaderboard_def readJson_def)
  have wa: "windowCount scenarioEnv ''a'' = 3"
    by (simp add: windowCount_def windowCountOf_def eval_defs)
  have wb: "windowCount scenarioEnv ''b'' = 0"
    by (simp add: windowCount_def windowCountOf_def eval_defs)
  have nb: "''b'' \<notin> lb_id ` set (currentLeaderboard oldFiles)"
    by (simp add: oldFiles_def currentLeaderboard_def readJson_def)
  have tb: "team_id (scenarioTeams ! 1) = ''b''" "scenarioTeams ! 1 \<in> set (teamsConfig scenarioEnv)"
    by (simp_all add: scenarioTeams_def teamsConfig_def scenarioEnv_def readJson_def)
  note c = leaderboard_total_is_sum_of_window_counts [OF d w]
  from c [of "''a''", THEN conjunct1]
  have a: "totalOf (currentLeaderboard (runs [scenarioEnv, scenarioEnv] oldFiles)) ''a'' = 16"
    by (simp add: t0 wa)
  from c [of "''b''", THEN conjunct2, THEN conjunct1] nb
  have b: "totalOf (currentLeaderboard (runs [scenarioEnv, scenarioEnv] oldFiles)) ''b'' = 0"
    by (simp add: wb)
  from c [of "''b''", THEN conjunct2, THEN conjunct2, THEN conjunct1] tb
  have m: "''b'' \<in> lb_id ` set (currentLeaderboard (runs [scenarioEnv, scenarioEnv] oldFiles))"
    by fastforce
  from d w1 t0 wa a b m show ?thesis by (intro conjI)
qed

text \<open>
  C2. The history a run produces has at most 50 entries: it is the most recent entries of
  the old history, in their order, followed by the new entry. When the old history holds
  50 entries its oldest one is dropped, the others move up by one place, and the new
  entry is the last of the 50. This is the history the run writes.
\<close>

theorem history_capped_at_50:
  "length (newHistory e fs) \<le> 50
   \<and> newHistory e fs = drop (length (history fs) - 49) (history fs) @ [newHistoryEntry e fs]
   \<and> (length (history fs) = 50 \<longrightarrow>
        newHistory e fs = tl (history fs) @ [newHistoryEntry e fs]
        \<and> length (newHistory e fs) = 50
        \<and> newHistory e fs ! 49 = newHistoryEntry e fs
        \<and> (\<forall>i<49. newHistory e fs ! i = history fs ! Suc i))
   \<and> (\<not> writeFileSync_throws e LEADERBOARD_FILE \<and> \<not> writeFileSync_throws e HISTORY_FILE \<longrightarrow>
        history (fst (worker e fs)) = newHistory e fs)"
proof (intro conjI impI allI)
  show "length (newHistory e fs) \<le> 50" by (rule length_newHistory_le)
  show "newHistory e fs = drop (length (history fs) - 49) (history fs) @ [newHistoryEntry e fs]"
    by (simp add: newHistory_def slice_last_def)
next
  assume full: "length (history fs) = 50"
  show tl: "newHistory e fs = tl (history fs) @ [newHistoryEntry e fs]"
    by (rule newHistory_full [OF full])
  show "length (newHistory e fs) = 50" using full by (simp add: tl)
  show "newHistory e fs ! 49 = newHistoryEntry e fs"
    using full by (simp add: tl nth_append)
  fix i :: nat
  assume "i < 49"
  then show "newHistory e fs ! i = history fs ! Suc i"
    using full by (simp add: tl nth_append nth_tl)
next
  assume "\<not> writeFileSync_throws e LEADERBOARD_FILE \<and> \<not> writeFileSync_throws e HISTORY_FILE"
  then show "history (fst (worker e fs)) = newHistory e fs"
    by (simp add: worker_written history_def readJson_def)
qed

theorem history_capped_at_50_witness:
  "length (history fullFiles) = 50
   \<and> newHistory scenarioEnv fullFiles
        = tl (history fullFiles) @ [newHistoryEntry scenarioEnv fullFiles]
   \<and> length (newHistory scenarioEnv fullFiles) = 50
   \<and> h_timestamp (history fullFiles ! 0) = 0
   \<and> h_timestamp (newHistory scenarioEnv fullFiles ! 0) = 1
   \<and> h_timestamp (newHistory scenarioEnv fullFiles ! 48) = 49
   \<and> h_timestamp (newHistory scenarioEnv fullFiles ! 49) = 1700000000000"
proof -
  have len: "length (history fullFiles) = 50"
    by (simp add: fullFiles_def fullHistory_def history_def readJson_def)
  note c = history_capped_at_50 [of scenarioEnv fullFiles, THEN conjunct2, THEN conjunct2, THEN conjunct1,
      THEN mp, OF len]
  have nth: "h_timestamp (history fullFiles ! i) = int i" if "i < 50" for i
    using that by (simp add: fullFiles_def fullHistory_def history_def readJson_def)
  have ts: "h_timestamp (newHistoryEntry scenarioEnv fullFiles) = 1700000000000"
    by (simp add: fold_history newHistoryEntry_def processTeams_def initialHistoryEntry_def
        scenarioEnv_def)
  have c1: "newHistory scenarioEnv fullFiles
        = tl (history fullFiles) @ [newHistoryEntry scenarioEnv fullFiles]"
    using c by (rule conjunct1)
  have c2: "length (newHistory scenarioEnv fullFiles) = 50"
    using c by (rule conjunct2 [THEN conjunct1])
  have c3: "newHistory scenarioEnv fullFiles ! 49 = newHistoryEntry scenarioEnv fullFiles"
    using c by (rule conjunct2 [THEN conjunct2, THEN conjunct1])
  have c4: "\<forall>i<49. newHistory scenarioEnv fullFiles ! i = history fullFiles ! Suc i"
    using c by (rule conjunct2 [THEN conjunct2, THEN conjunct2])
  have h0: "h_timestamp (history fullFiles ! 0) = 0" using nth [of 0] by simp
  have n0: "h_timestamp (newHistory scenarioEnv fullFiles ! 0) = 1"
    using c4 nth [of 1] by simp
  have n48: "h_timestamp (newHistory scenarioEnv fullFiles ! 48) = 49"
    using c4 nth [of 49] by simp
  have n49: "h_timestamp (newHistory scenarioEnv fullFiles ! 49) = 1700000000000"
    using c3 ts by simp
  from len c1 c2 h0 n0 n48 n49 show ?thesis by (intro conjI)
qed

text \<open>
  C3. When the commit-listing call throws, getCommitsInWindow returns 0, whatever the
  error. A repository whose call throws counts 0: the window count of its team is the sum
  over the team's other repositories, and the leaderboard and the history the run
  produces are those of the same run with the failing repositories removed from the
  configuration. Whatever the calls return, a run whose writes and whose publish succeed
  ends with exit code 0 and has written both artifacts.
\<close>

theorem query_error_counts_zero:
  "(listCommits e rOwner rName s u = Inl err \<longrightarrow> getCommitsInWindow e rOwner rName s u = 0)
   \<and> (repoFails e r \<longrightarrow> repoCount e r = 0)
   \<and> teamWindowCommits e t =
        sum_list (map (repoCount e) (filter (\<lambda>r. \<not> repoFails e r) (team_repos t)))
   \<and> newLeaderboard e fs =
        newLeaderboard (e\<lparr>teams_json := Some (map (dropFailing e) (teamsConfig e))\<rparr>) fs
   \<and> newHistory e fs =
        newHistory (e\<lparr>teams_json := Some (map (dropFailing e) (teamsConfig e))\<rparr>) fs
   \<and> (\<not> writeFileSync_throws e LEADERBOARD_FILE \<and> \<not> writeFileSync_throws e HISTORY_FILE
        \<and> exec_err e = None \<longrightarrow>
        worker e fs =
          (\<lparr>leaderboard_json = Some (newLeaderboard e fs),
            history_json = Some (newHistory e fs)\<rparr>, 0))"
proof (intro conjI impI)
  assume "listCommits e rOwner rName s u = Inl err"
  then show "getCommitsInWindow e rOwner rName s u = 0"
    by (simp add: getCommitsInWindow_def)
next
  assume "repoFails e r"
  then show "repoCount e r = 0" by (rule repoFails_count)
next
  show "teamWindowCommits e t =
      sum_list (map (repoCount e) (filter (\<lambda>r. \<not> repoFails e r) (team_repos t)))"
    by (rule teamWindowCommits_ok_repos)
  show "newLeaderboard e fs =
      newLeaderboard (e\<lparr>teams_json := Some (map (dropFailing e) (teamsConfig e))\<rparr>) fs"
    by (simp add: newLeaderboard_def processTeams_dropFailing)
  show "newHistory e fs =
      newHistory (e\<lparr>teams_json := Some (map (dropFailing e) (teamsConfig e))\<rparr>) fs"
    by (simp add: newHistory_def newHistoryEntry_def processTeams_dropFailing)
next
  assume "\<not> writeFileSync_throws e LEADERBOARD_FILE \<and> \<not> writeFileSync_throws e HISTORY_FILE
      \<and> exec_err e = None"
  then show "worker e fs =
      (\<lparr>leaderboard_json = Some (newLeaderboard e fs),
        history_json = Some (newHistory e fs)\<rparr>, 0)"
    by (simp add: worker_written)
qed

theorem query_error_counts_zero_witness:
  "listCommits scenarioEnv (Some ''o'') (Some ''r2'') (sinceTime scenarioEnv) (untilTime scenarioEnv)
     = Inl (ApiError (Some 404) ''Not Found'')
   \<and> getCommitsInWindow scenarioEnv (Some ''o'') (Some ''r2'')
        (sinceTime scenarioEnv) (untilTime scenarioEnv) = 0
   \<and> repoFails scenarioEnv ''o/r2''
   \<and> repoCount scenarioEnv ''o/r2'' = 0
   \<and> \<not> writeFileSync_throws scenarioEnv LEADERBOARD_FILE
   \<and> \<not> writeFileSync_throws scenarioEnv HISTORY_FILE
   \<and> exec_err scenarioEnv = None
   \<and> worker scenarioEnv emptyFiles =
       (\<lparr>leaderboard_json = Some (newLeaderboard scenarioEnv emptyFiles),
         history_json = Some (newHistory scenarioEnv emptyFiles)\<rparr>, 0)
   \<and> newLeaderboard scenarioEnv emptyFiles =
       [\<lparr>lb_id = ''a'', lb_name = ''Alpha'', total_commits = 3, lb_color = ''red''\<rparr>,
        \<lparr>lb_id = ''b'', lb_name = ''Beta'', total_commits = 0, lb_color = ''blue''\<rparr>]"
proof -
  note c = query_error_counts_zero [of scenarioEnv "Some ''o''" "Some ''r2''"
      "sinceTime scenarioEnv" "untilTime scenarioEnv" "ApiError (Some 404) ''Not Found''"
      "''o/r2''" _ emptyFiles]
  have q: "listCommits scenarioEnv (Some ''o'') (Some ''r2'') (sinceTime scenarioEnv)
      (untilTime scenarioEnv) = Inl (ApiError (Some 404) ''Not Found'')"
    by (simp add: scenarioEnv_def)
  have f: "repoFails scenarioEnv ''o/r2''"
    by (simp add: repoFails_def scenarioEnv_def)
  have w: "\<not> writeFileSync_throws scenarioEnv LEADERBOARD_FILE
      \<and> \<not> writeFileSync_throws scenarioEnv HISTORY_FILE \<and> exec_err scenarioEnv = None"
    by (simp add: scenario_writes)
  from c [THEN conjunct1, THEN mp, OF q]
  have c1: "getCommitsInWindow scenarioEnv (Some ''o'') (Some ''r2'')
      (sinceTime scenarioEnv) (untilTime scenarioEnv) = 0" .
  from c [THEN conjunct2, THEN conjunct1, THEN mp, OF f]
  have c2: "repoCount scenarioEnv ''o/r2'' = 0" .
  from c [THEN conjunct2, THEN conjunct2, THEN conjunct2, THEN conjunct2, THEN conjunct2,
      THEN mp, OF w]
  have c3: "worker scenarioEnv emptyFiles =
      (\<lparr>leaderboard_json = Some (newLeaderboard scenarioEnv emptyFiles),
        history_json = Some (newHistory scenarioEnv emptyFiles)\<rparr>, 0)" .
  from q c1 f c2 scenario_writes c3 scenario_empty_leaderboard show ?thesis
    by (intro conjI)
qed

text \<open>
  C4. The leaderboard a run produces is sorted by total_commits, descending: an entry
  never has a higher total than an entry before it. It is the leaderboard the run
  writes.
\<close>

theorem leaderboard_sorted_descending:
  "sorted_wrt (\<lambda>a b. total_commits b \<le> total_commits a) (newLeaderboard e fs)
   \<and> (\<forall>i j. i < j \<and> j < length (newLeaderboard e fs) \<longrightarrow>
         total_commits (newLeaderboard e fs ! j) \<le> total_commits (newLeaderboard e fs ! i))
   \<and> (\<not> writeFileSync_throws e LEADERBOARD_FILE \<longrightarrow>
         leaderboard_json (fst (worker e fs)) = Some (newLeaderboard e fs))"
proof (intro conjI impI allI)
  show s: "sorted_wrt (\<lambda>a b. total_commits b \<le> total_commits a) (newLeaderboard e fs)"
    by (simp add: newLeaderboard_def array_sort_desc_sorted)
  fix i j
  assume "i < j \<and> j < length (newLeaderboard e fs)"
  with s show "total_commits (newLeaderboard e fs ! j) \<le> total_commits (newLeaderboard e fs ! i)"
    by (simp add: sorted_wrt_iff_nth_less)
next
  assume "\<not> writeFileSync_throws e LEADERBOARD_FILE"
  then show "leaderboard_json (fst (worker e fs)) = Some (newLeaderboard e fs)"
    by (simp add: fst_worker runTracker_def commitFiles_def Let_def split: option.splits)
qed

theorem leaderboard_sorted_descending_witness:
  "sorted_wrt (\<lambda>a b. total_commits b \<le> total_commits a) (newLeaderboard scenarioEnv oldFiles)
   \<and> map total_commits (newLeaderboard scenarioEnv oldFiles) = [13, 7, 0]
   \<and> total_commits (newLeaderboard scenarioEnv oldFiles ! 2)
        \<le> total_commits (newLeaderboard scenarioEnv oldFiles ! 0)
   \<and> \<not> writeFileSync_throws scenarioEnv LEADERBOARD_FILE
   \<and> leaderboard_json (fst (worker scenarioEnv oldFiles))
        = Some (newLeaderboard scenarioEnv oldFiles)"
proof -
  note c = leaderboard_sorted_descending [of scenarioEnv oldFiles]
  have len: "(0::nat) < 2 \<and> 2 < length (newLeaderboard scenarioEnv oldFiles)"
    by (simp add: scenario_old_leaderboard)
  have t: "map total_commits (newLeaderboard scenarioEnv oldFiles) = [13, 7, 0]"
    by (simp add: scenario_old_leaderboard)
  from c [THEN conjunct2, THEN conjunct1, THEN spec, THEN spec, THEN mp, OF len]
  have n: "total_commits (newLeaderboard scenarioEnv oldFiles ! 2)
      \<le> total_commits (newLeaderboard scenarioEnv oldFiles ! 0)" .
  from c [THEN conjunct2, THEN conjunct2, THEN mp, OF scenario_writes(1)]
  have w: "leaderboard_json (fst (worker scenarioEnv oldFiles))
      = Some (newLeaderboard scenarioEnv oldFiles)" .
  from c [THEN conjunct1] t n scenario_writes(1) w show ?thesis
    by (intro conjI)
qed

text \<open>
  C5. A configured team whose identifier is \<open>__proto__\<close> is missing from the teams
  mapping of the new history entry: with that one team and three commits in its
  repository, the mapping is empty, while the total of the same entry is 3 and the
  leaderboard holds the team with 3 commits.
\<close>

theorem proto_team_missing_from_history:
  "teamsConfig protoEnv =
     [\<lparr>team_id = ''__proto__'', team_name = ''Proto'', team_repos = [''o/r1''],
       team_color = ''red''\<rparr>]
   \<and> repoCount protoEnv ''o/r1'' = 3
   \<and> h_teams (newHistoryEntry protoEnv emptyFiles) ''__proto__'' = None
   \<and> dom (h_teams (newHistoryEntry protoEnv emptyFiles)) = {}
   \<and> h_total (newHistoryEntry protoEnv emptyFiles) = 3
   \<and> newLeaderboard protoEnv emptyFiles =
       [\<lparr>lb_id = ''__proto__'', lb_name = ''Proto'', total_commits = 3, lb_color = ''red''\<rparr>]"
proof -
  have cfg: "teamsConfig protoEnv =
      [\<lparr>team_id = ''__proto__'', team_name = ''Proto'', team_repos = [''o/r1''],
        team_color = ''red''\<rparr>]"
    by (simp add: teamsConfig_def protoEnv_def readJson_def)
  have r: "repoCount protoEnv ''o/r1'' = 3"
    by (simp add: repoCount_def getCommitsInWindow_def protoEnv_def scenarioEnv_def)
  have t: "h_teams (newHistoryEntry protoEnv emptyFiles) ''__proto__'' = None"
    by (simp add: newHistoryEntry_eq)
  have d: "dom (h_teams (newHistoryEntry protoEnv emptyFiles)) = {}"
    by (auto simp: newHistoryEntry_eq cfg dom_def split: if_splits)
  have s: "h_total (newHistoryEntry protoEnv emptyFiles) = 3"
    by (simp add: newHistoryEntry_eq cfg teamWindowCommits_sum r)
  have l: "newLeaderboard protoEnv emptyFiles =
      [\<lparr>lb_id = ''__proto__'', lb_name = ''Proto'', total_commits = 3, lb_color = ''red''\<rparr>]"
    by (simp add: protoEnv_def eval_defs)
  from cfg r t d s l show ?thesis by (intro conjI)
qed

text \<open>
  C6. From a leaderboard with one entry per identifier, a run keeps every entry whose
  identifier is not in the team configuration, all fields unchanged; every identifier of
  the old leaderboard is in the new one, which is at least as long.
\<close>

theorem unconfigured_entries_retained:
  assumes "distinct (map lb_id (currentLeaderboard fs))"
  shows "(\<forall>x\<in>set (currentLeaderboard fs).
            lb_id x \<notin> team_id ` set (teamsConfig e) \<longrightarrow> x \<in> set (newLeaderboard e fs))
       \<and> lb_id ` set (currentLeaderboard fs) \<subseteq> lb_id ` set (newLeaderboard e fs)
       \<and> length (currentLeaderboard fs) \<le> length (newLeaderboard e fs)"
proof (intro conjI ballI impI)
  fix x
  assume x: "x \<in> set (currentLeaderboard fs)"
    and "lb_id x \<notin> team_id ` set (teamsConfig e)"
  then have "windowCount e (lb_id x) = 0" by (simp add: windowCount_unconfigured)
  with old_entry_updated [OF assms x, of e]
  have "map_of (fst (processTeams e fs)) (lb_id x) = Some x" by simp
  then show "x \<in> set (newLeaderboard e fs)" by (simp add: newLeaderboard_set)
next
  show sub: "lb_id ` set (currentLeaderboard fs) \<subseteq> lb_id ` set (newLeaderboard e fs)"
    by (simp add: newLeaderboard_ids)
  have "length (currentLeaderboard fs) = card (lb_id ` set (currentLeaderboard fs))"
    using distinct_card [OF assms] by simp
  also have "\<dots> \<le> card (lb_id ` set (newLeaderboard e fs))"
    by (rule card_mono [OF _ sub]) simp
  also have "\<dots> = length (newLeaderboard e fs)"
    using distinct_card [OF newLeaderboard_distinct, of e fs] by simp
  finally show "length (currentLeaderboard fs) \<le> length (newLeaderboard e fs)" .
qed

theorem unconfigured_entries_retained_witness:
  "distinct (map lb_id (currentLeaderboard oldFiles))
   \<and> \<lparr>lb_id = ''z'', lb_name = ''Zeta'', total_commits = 7, lb_color = ''green''\<rparr>
        \<in> set (currentLeaderboard oldFiles)
   \<and> ''z'' \<notin> team_id ` set (teamsConfig scenarioEnv)
   \<and> \<lparr>lb_id = ''z'', lb_name = ''Zeta'', total_commits = 7, lb_color = ''green''\<rparr>
        \<in> set (newLeaderboard scenarioEnv oldFiles)
   \<and> length (currentLeaderboard oldFiles) \<le> length (newLeaderboard scenarioEnv oldFiles)"
proof -
  let ?z = "\<lparr>lb_id = ''z'', lb_name = ''Zeta'', total_commits = 7, lb_color = ''green''\<rparr>"
  note c = unconfigured_entries_retained [OF scenario_old_distinct, of scenarioEnv]
  have m: "?z \<in> set (currentLeaderboard oldFiles)"
    by (simp add: oldFiles_def currentLeaderboard_def readJson_def)
  have n: "''z'' \<notin> team_id ` set (teamsConfig scenarioEnv)"
    by (simp add: teamsConfig_def scenarioEnv_def readJson_def scenarioTeams_def)
  then have n': "lb_id ?z \<notin> team_id ` set (teamsConfig scenarioEnv)" by simp
  from c [THEN conjunct1, THEN bspec, OF m, THEN mp, OF n']
  have r: "?z \<in> set (newLeaderboard scenarioEnv oldFiles)" .
  from scenario_old_distinct m n r c [THEN conjunct2, THEN conjunct2] show ?thesis
    by (intro conjI)
qed

text \<open>
  C7. When both files are written and the git commands fail, the run is rejected with
  the message of the failure, the process exits with code 1, and the two files hold the
  new leaderboard and the new history: the writes are not undone.
\<close>

theorem publish_failure_exits_nonzero:
  assumes "\<not> writeFileSync_throws e LEADERBOARD_FILE"
    and "\<not> writeFileSync_throws e HISTORY_FILE"
    and "exec_err e = Some message"
  shows "runTracker e fs =
           (\<lparr>leaderboard_json = Some (newLeaderboard e fs),
             history_json = Some (newHistory e fs)\<rparr>, Inl (FailedToCommit message))
       \<and> worker e fs =
           (\<lparr>leaderboard_json = Some (newLeaderboard e fs),
             history_json = Some (newHistory e fs)\<rparr>, 1)"
  using assms by (simp add: worker_def runTracker_def commitFiles_def Let_def)

theorem publish_failure_exits_nonzero_witness:
  "\<not> writeFileSync_throws rejectedEnv LEADERBOARD_FILE
   \<and> \<not> writeFileSync_throws rejectedEnv HISTORY_FILE
   \<and> exec_err rejectedEnv = Some ''Command failed: git push''
   \<and> snd (worker rejectedEnv emptyFiles) = 1
   \<and> leaderboard_json (fst (worker rejectedEnv emptyFiles)) =
       Some [\<lparr>lb_id = ''a'', lb_name = ''Alpha'', total_commits = 3, lb_color = ''red''\<rparr>,
             \<lparr>lb_id = ''b'', lb_name = ''Beta'', total_commits = 0, lb_color = ''blue''\<rparr>]
   \<and> leaderboard_json emptyFiles = None"
proof -
  have h1: "\<not> writeFileSync_throws rejectedEnv LEADERBOARD_FILE"
    and h2: "\<not> writeFileSync_throws rejectedEnv HISTORY_FILE"
    and h3: "exec_err rejectedEnv = Some ''Command failed: git push''"
    by (simp_all add: rejectedEnv_def scenarioEnv_def)
  note c = publish_failure_exits_nonzero [OF h1 h2 h3, of emptyFiles, THEN conjunct2]
  have lb: "newLeaderboard rejectedEnv emptyFiles =
      [\<lparr>lb_id = ''a'', lb_name = ''Alpha'', total_commits = 3, lb_color = ''red''\<rparr>,
       \<lparr>lb_id = ''b'', lb_name = ''Beta'', total_commits = 0, lb_color = ''blue''\<rparr>]"
    by (simp add: rejectedEnv_def eval_defs)
  from c have x: "snd (worker rejectedEnv emptyFiles) = 1" by simp
  from c lb have f: "leaderboard_json (fst (worker rejectedEnv emptyFiles)) =
      Some [\<lparr>lb_id = ''a'', lb_name = ''Alpha'', total_commits = 3, lb_color = ''red''\<rparr>,
            \<lparr>lb_id = ''b'', lb_name = ''Beta'', total_commits = 0, lb_color = ''blue''\<rparr>]"
    by simp
  have e: "leaderboard_json emptyFiles = None" by (simp add: emptyFiles_def)
  from h1 h2 h3 x f e show ?thesis by (intro conjI)
qed

text \<open>
  C8. The cache parameter of the artifact URLs is computed when the module is loaded and
  is the same in every fetch: a dashboard loaded at clock 1000 requests the URLs with
  \<open>cache=1000\<close> on the initial load and again on the poll at clock 31000.
\<close>

theorem cache_parameter_fixed_at_load:
  "fetched (App (loadModule 1000 1000) [goodCycle 1000, goodCycle 31000]) =
     [''https://raw.githubusercontent.com/MethodistCollege/hacknovate-commit-tracker/main/data/leaderboard.json?cache=1000'',
      ''https://raw.githubusercontent.com/MethodistCollege/hacknovate-commit-tracker/main/data/history.json?cache=1000'',
      ''https://raw.githubusercontent.com/MethodistCollege/hacknovate-commit-tracker/main/data/leaderboard.json?cache=1000'',
      ''https://raw.githubusercontent.com/MethodistCollege/hacknovate-commit-tracker/main/data/history.json?cache=1000'']"
  by (simp add: App_def fetchData_fetched goodCycle_def initialApp_def loadModule_def
      RAW_URL_BASE_def decimal.simps)

text \<open>
  C9 (as amended). A cycle whose leaderboard fetch or parse fails leaves the displayed
  leaderboard, the displayed history and the last-update label unchanged. A cycle whose
  leaderboard is fetched and whose history fetch or parse fails shows the newly fetched
  leaderboard and leaves the history and the label unchanged. In both cases the error
  is logged once and the cycle ends with \<open>loading\<close> false.
\<close>

theorem fetch_failure_keeps_history:
  "(fetch_leaderboard c (LEADERBOARD_URL md) = Inl err \<longrightarrow>
      leaderboard (fetchData md c st) = leaderboard st
      \<and> historyData (fetchData md c st) = historyData st
      \<and> lastUpdate (fetchData md c st) = lastUpdate st
      \<and> console (fetchData md c st) = console st @ [ErrorFetchingData err]
      \<and> \<not> loading (fetchData md c st))
   \<and> (fetch_leaderboard c (LEADERBOARD_URL md) = Inr lb
        \<and> fetch_history c (HISTORY_URL md) = Inl err \<longrightarrow>
      leaderboard (fetchData md c st) = lb
      \<and> historyData (fetchData md c st) = historyData st
      \<and> lastUpdate (fetchData md c st) = lastUpdate st
      \<and> console (fetchData md c st) = console st @ [ErrorFetchingData err]
      \<and> \<not> loading (fetchData md c st))"
  by (simp add: fetchData_leaderboard_fails fetchData_history_fails)

theorem fetch_failure_keeps_history_witness:
  "fetch_leaderboard leaderboardDownCycle (LEADERBOARD_URL (loadModule 1000 1000))
     = Inl (JsonError ''Unexpected token'')
   \<and> leaderboard (fetchData (loadModule 1000 1000) leaderboardDownCycle shownApp)
       = leaderboard shownApp
   \<and> historyData (fetchData (loadModule 1000 1000) leaderboardDownCycle shownApp)
       = historyData shownApp
   \<and> console (fetchData (loadModule 1000 1000) leaderboardDownCycle shownApp)
       = [ErrorFetchingData (JsonError ''Unexpected token'')]
   \<and> fetch_leaderboard historyDownCycle (LEADERBOARD_URL (loadModule 1000 1000))
       = Inr servedLeaderboard
   \<and> fetch_history historyDownCycle (HISTORY_URL (loadModule 1000 1000))
       = Inl (NetworkError ''Failed to fetch'')
   \<and> leaderboard (fetchData (loadModule 1000 1000) historyDownCycle shownApp)
       = servedLeaderboard
   \<and> historyData (fetchData (loadModule 1000 1000) historyDownCycle shownApp)
       = historyData shownApp
   \<and> console (fetchData (loadModule 1000 1000) historyDownCycle shownApp)
       = [ErrorFetchingData (NetworkError ''Failed to fetch'')]
   \<and> \<not> loading (fetchData (loadModule 1000 1000) historyDownCycle shownApp)"
proof -
  let ?md = "loadModule 1000 1000"
  have l: "fetch_leaderboard leaderboardDownCycle (LEADERBOARD_URL ?md)
      = Inl (JsonError ''Unexpected token'')"
    by (simp add: leaderboardDownCycle_def)
  have h: "fetch_leaderboard historyDownCycle (LEADERBOARD_URL ?md) = Inr servedLeaderboard
      \<and> fetch_history historyDownCycle (HISTORY_URL ?md) = Inl (NetworkError ''Failed to fetch'')"
    by (simp add: historyDownCycle_def)
  have c0: "console shownApp = []" by (simp add: shownApp_def)
  note a = fetch_failure_keeps_history [of leaderboardDownCycle ?md
      "JsonError ''Unexpected token''" shownApp, THEN conjunct1, THEN mp, OF l]
  note b = fetch_failure_keeps_history [of historyDownCycle ?md
      "NetworkError ''Failed to fetch''" shownApp servedLeaderboard, THEN conjunct2, THEN mp, OF h]
  from a have a1: "leaderboard (fetchData ?md leaderboardDownCycle shownApp) = leaderboard shownApp"
    by (rule conjunct1)
  from a have a2: "historyData (fetchData ?md leaderboardDownCycle shownApp) = historyData shownApp"
    by (rule conjunct2 [THEN conjunct1])
  from a have a3: "console (fetchData ?md leaderboardDownCycle shownApp)
      = [ErrorFetchingData (JsonError ''Unexpected token'')]"
    using c0 by simp
  from b have b1: "leaderboard (fetchData ?md historyDownCycle shownApp) = servedLeaderboard"
    by (rule conjunct1)
  from b have b2: "historyData (fetchData ?md historyDownCycle shownApp) = historyData shownApp"
    by (rule conjunct2 [THEN conjunct1])
  from b have b3: "console (fetchData ?md historyDownCycle shownApp)
      = [ErrorFetchingData (NetworkError ''Failed to fetch'')]"
    using c0 by simp
  from b have b4: "\<not> loading (fetchData ?md historyDownCycle shownApp)"
    by (rule conjunct2 [THEN conjunct2, THEN conjunct2, THEN conjunct2])
  from l a1 a2 a3 h [THEN conjunct1] h [THEN conjunct2] b1 b2 b3 b4 show ?thesis
    by (intro conjI)
qed

text \<open>
  C9 as stated fails: when only the history fetch fails, the displayed leaderboard is not
  the previous one.
\<close>

theorem history_failure_replaces_leaderboard:
  "fetch_history historyDownCycle (HISTORY_URL (loadModule 1000 1000))
     = Inl (NetworkError ''Failed to fetch'')
   \<and> leaderboard shownApp
       = [\<lparr>lb_id = ''a'', lb_name = ''Alpha'', total_commits = 1, lb_color = ''red''\<rparr>]
   \<and> leaderboard (fetchData (loadModule 1000 1000) historyDownCycle shownApp)
       = [\<lparr>lb_id = ''a'', lb_name = ''Alpha'', total_commits = 3, lb_color = ''red''\<rparr>]
   \<and> leaderboard (fetchData (loadModule 1000 1000) historyDownCycle shownApp)
       \<noteq> leaderboard shownApp"
  by (simp add: fetchData_def Let_def historyDownCycle_def shownApp_def servedLeaderboard_def)

text \<open>
  C10. From a leaderboard with one entry per identifier, the new leaderboard holds every
  old entry with its total raised by the window count of its identifier and nothing else
  changed; the entry under that identifier has the old name and the old color, whatever
  the configuration says.
\<close>

theorem existing_entry_keeps_name_and_color:
  assumes "distinct (map lb_id (currentLeaderboard fs))"
  shows "\<forall>x\<in>set (currentLeaderboard fs).
           x\<lparr>total_commits := total_commits x + windowCount e (lb_id x)\<rparr>
             \<in> set (newLeaderboard e fs)
         \<and> (\<forall>y\<in>set (newLeaderboard e fs). lb_id y = lb_id x \<longrightarrow>
               lb_name y = lb_name x \<and> lb_color y = lb_color x
               \<and> total_commits y = total_commits x + windowCount e (lb_id x))"
proof (intro ballI conjI impI)
  fix x
  assume x: "x \<in> set (currentLeaderboard fs)"
  note m = old_entry_updated [OF assms x, of e]
  then show "x\<lparr>total_commits := total_commits x + windowCount e (lb_id x)\<rparr>
      \<in> set (newLeaderboard e fs)"
    by (simp add: newLeaderboard_set)
  fix y
  assume "y \<in> set (newLeaderboard e fs)" and "lb_id y = lb_id x"
  then have y: "y = x\<lparr>total_commits := total_commits x + windowCount e (lb_id x)\<rparr>"
    using m by (simp add: newLeaderboard_set)
  show "lb_name y = lb_name x" by (simp add: y)
  show "lb_color y = lb_color x" by (simp add: y)
  show "total_commits y = total_commits x + windowCount e (lb_id x)" by (simp add: y)
qed

theorem existing_entry_keeps_name_and_color_witness:
  "distinct (map lb_id (currentLeaderboard oldFiles))
   \<and> \<lparr>lb_id = ''a'', lb_name = ''Old'', total_commits = 10, lb_color = ''black''\<rparr>
        \<in> set (currentLeaderboard oldFiles)
   \<and> \<lparr>team_id = ''a'', team_name = ''Alpha'', team_repos = [''o/r1''], team_color = ''red''\<rparr>
        \<in> set (teamsConfig scenarioEnv)
   \<and> windowCount scenarioEnv ''a'' = 3
   \<and> \<lparr>lb_id = ''a'', lb_name = ''Old'', total_commits = 13, lb_color = ''black''\<rparr>
        \<in> set (newLeaderboard scenarioEnv oldFiles)
   \<and> lb_name (newLeaderboard scenarioEnv oldFiles ! 0) = ''Old''
   \<and> lb_color (newLeaderboard scenarioEnv oldFiles ! 0) = ''black''"
proof -
  let ?a = "\<lparr>lb_id = ''a'', lb_name = ''Old'', total_commits = 10, lb_color = ''black''\<rparr>"
  have m: "?a \<in> set (currentLeaderboard oldFiles)"
    by (simp add: oldFiles_def currentLeaderboard_def readJson_def)
  have t: "\<lparr>team_id = ''a'', team_name = ''Alpha'', team_repos = [''o/r1''], team_color = ''red''\<rparr>
      \<in> set (teamsConfig scenarioEnv)"
    by (simp add: teamsConfig_def scenarioEnv_def readJson_def scenarioTeams_def)
  have wc: "windowCount scenarioEnv ''a'' = 3"
    by (simp add: windowCount_def windowCountOf_def eval_defs)
  note c = existing_entry_keeps_name_and_color [OF scenario_old_distinct, of scenarioEnv,
      THEN bspec, OF m]
  from c [THEN conjunct1]
  have r: "\<lparr>lb_id = ''a'', lb_name = ''Old'', total_commits = 13, lb_color = ''black''\<rparr>
      \<in> set (newLeaderboard scenarioEnv oldFiles)"
    by (simp add: wc)
  have y: "newLeaderboard scenarioEnv oldFiles ! 0 \<in> set (newLeaderboard scenarioEnv oldFiles)"
    and i: "lb_id (newLeaderboard scenarioEnv oldFiles ! 0) = lb_id ?a"
    by (simp_all add: scenario_old_leaderboard)
  from c [THEN conjunct2, THEN bspec, OF y, THEN mp, OF i]
  have n: "lb_name (newLeaderboard scenarioEnv oldFiles ! 0) = ''Old''"
    and k: "lb_color (newLeaderboard scenarioEnv oldFiles ! 0) = ''black''"
    by simp_all
  from scenario_old_distinct m t wc r n k show ?thesis by (intro conjI)
qed

end
